theory Spec2Isabelle
  imports Complex_Main
begin

section \<open>Data model\<close>

text \<open>
  The tracker records the winner of each round. The source declares
  \<^verbatim>\<open>type ColorKey = "R" | "B" | "T"\<close> and
  \<^verbatim>\<open>type Result = { id: string; v: ColorKey; ts: number }\<close>.
  The statistics never read \<open>id\<close> or \<open>ts\<close>, and the JSON importer stores whatever
  truthy value a record carries there, so both fields are type parameters of the record.
  The field \<open>id\<close> is written \<open>id'\<close> (\<open>id\<close> is the identity function of HOL).
\<close>

datatype ColorKey = R | B | T

record ('i, 't) Result =
  id' :: 'i
  v :: ColorKey
  ts :: 't

section \<open>The bulk parser\<close>

text \<open>
  \<^verbatim>\<open>text.toUpperCase().replaceAll(/[^RBTREDLUEI\s,;\-\|]/g, " ").split(/[\s,;\\-|]+/)
      .map(classify).filter(Boolean)\<close>

  Strings are lists of 8-bit characters, read as Latin-1 text. \<open>toUpperCase\<close> is
  modelled on the ASCII letters; every other character is left as it is. (The
  upper-case forms of the Latin-1 letters above 127 are all outside the alphabet the
  next step keeps, so that step blanks them in the source and in the model alike.)
\<close>

definition upper_char :: "char \<Rightarrow> char" where
  "upper_char c =
     (case map_of (zip ''abcdefghijklmnopqrstuvwxyz'' ''ABCDEFGHIJKLMNOPQRSTUVWXYZ'') c of
        Some u \<Rightarrow> u
      | None \<Rightarrow> c)"

definition toUpperCase :: "string \<Rightarrow> string" where
  "toUpperCase text = map upper_char text"

text \<open>The class \<^verbatim>\<open>\s\<close>: tab, line feed, vertical tab, form feed, carriage return,
  space and the no-break space.\<close>

definition isSpace :: "char \<Rightarrow> bool" where
  "isSpace c = ((of_char c :: nat) \<in> {9, 10, 11, 12, 13, 32, 160})"

text \<open>The negated class \<^verbatim>\<open>[^RBTREDLUEI\s,;\-\|]\<close> of the cleaning step: here the
  hyphen and the pipe are escaped, so both are kept.\<close>

definition isNoise :: "char \<Rightarrow> bool" where
  "isNoise c =
     (\<not> (c \<in> set ''RBTREDLUEI'' \<or> isSpace c \<or> c = CHR '','' \<or> c = CHR '';''
          \<or> c = CHR ''-'' \<or> c = CHR ''|''))"

definition clean :: "string \<Rightarrow> string" where
  "clean text = map (\<lambda>c. if isNoise c then CHR '' '' else c) text"

text \<open>The class \<^verbatim>\<open>[\s,;\\-|]\<close> of the split: \<^verbatim>\<open>\\\<close> is an escaped backslash, so
  \<^verbatim>\<open>\\-|\<close> is the range from the backslash (code 92) to the pipe (code 124). The
  hyphen (code 45) is not in the class.\<close>

definition isSplitSep :: "char \<Rightarrow> bool" where
  "isSplitSep c =
     (isSpace c \<or> c = CHR '','' \<or> c = CHR '';''
      \<or> (92 \<le> (of_char c :: nat) \<and> (of_char c :: nat) \<le> 124))"

text \<open>\<^verbatim>\<open>split\<close> on a regular expression \<^verbatim>\<open>[...]+\<close>: every maximal run of separators
  ends one piece and starts the next, so a text that starts or ends with a separator
  has an empty first or last piece, and the empty text has the one piece \<open>''''\<close>.
  \<open>cur\<close> holds the piece being read, reversed.\<close>

function split_loop :: "string \<Rightarrow> string \<Rightarrow> string list" where
  "split_loop cur [] = [rev cur]"
| "split_loop cur (c # cs) =
     (if isSplitSep c then rev cur # split_loop [] (dropWhile isSplitSep cs)
      else split_loop (c # cur) cs)"
  by pat_completeness auto
termination
  by (relation "measure (\<lambda>(cur, cs). length cs)")
     (auto simp: le_imp_less_Suc length_dropWhile_le)

definition split :: "string \<Rightarrow> string list" where
  "split text = split_loop [] text"

text \<open>The callback of \<^verbatim>\<open>map\<close>; \<open>None\<close> is the source's \<^verbatim>\<open>null\<close>.\<close>

definition classify :: "string \<Rightarrow> ColorKey option" where
  "classify t =
     (if t = [] then None
      else if t \<in> set [''R'', ''RED''] then Some R
      else if t \<in> set [''B'', ''BLUE''] then Some B
      else if t \<in> set [''T'', ''TIE''] then Some T
      else None)"

text \<open>\<^verbatim>\<open>filter(Boolean)\<close> drops the \<^verbatim>\<open>null\<close>s; the three tags are non-empty strings,
  hence truthy.\<close>

definition parseBulk :: "string \<Rightarrow> ColorKey list" where
  "parseBulk text =
     map the (filter (\<lambda>r. r \<noteq> None) (map classify (split (clean (toUpperCase text)))))"

section \<open>The statistics\<close>

text \<open>
  \<open>computeStats\<close> runs six scans over \<open>seq = history.map(r => r.v)\<close>. Each loop is a
  recursive function over the part of the sequence still to be read, with the loop's
  variables as arguments. A variable of type \<^verbatim>\<open>ColorKey | null\<close> is a
  \<open>ColorKey option\<close>; the three tags are truthy, so a test \<^verbatim>\<open>if (lastColor)\<close> is a
  test for \<open>Some\<close>.
\<close>

subsection \<open>Alternations\<close>

fun alternations_loop :: "nat \<Rightarrow> ColorKey option \<Rightarrow> ColorKey list \<Rightarrow> nat" where
  "alternations_loop alternations lastColor [] = alternations"
| "alternations_loop alternations lastColor (x # xs) =
     (if x = T then alternations_loop alternations lastColor xs
      else alternations_loop
             (if lastColor \<noteq> None \<and> Some x \<noteq> lastColor then alternations + 1
              else alternations)
             (Some x) xs)"

subsection \<open>Current streak\<close>

text \<open>The loop reads \<open>seq\<close> from its last index down to 0, so the list argument is
  \<open>rev seq\<close>. A \<^verbatim>\<open>break\<close> returns the variables as they are.\<close>

fun currentStreak_loop ::
  "nat \<Rightarrow> ColorKey option \<Rightarrow> ColorKey list \<Rightarrow> nat \<times> ColorKey option" where
  "currentStreak_loop currentStreak currentColor [] = (currentStreak, currentColor)"
| "currentStreak_loop currentStreak currentColor (x # xs) =
     (if x = T then (currentStreak, currentColor)
      else if currentColor = None then currentStreak_loop 1 (Some x) xs
      else if Some x = currentColor then currentStreak_loop (currentStreak + 1) currentColor xs
      else (currentStreak, currentColor))"

subsection \<open>Longest streak per colour\<close>

text \<open>\<^verbatim>\<open>longest: Record<ColorKey, number>\<close> has the three keys from the start, so it
  is a function on \<open>ColorKey\<close>. \<open>flush\<close> is the statement
  \<^verbatim>\<open>if (runColor) longest[runColor] = Math.max(longest[runColor], runLen)\<close>, which the
  source has in the loop and once more after it.\<close>

definition flush :: "(ColorKey \<Rightarrow> nat) \<Rightarrow> ColorKey option \<Rightarrow> nat \<Rightarrow> (ColorKey \<Rightarrow> nat)" where
  "flush longest runColor runLen =
     (case runColor of
        None \<Rightarrow> longest
      | Some c \<Rightarrow> longest(c := max (longest c) runLen))"

fun longest_loop ::
  "(ColorKey \<Rightarrow> nat) \<Rightarrow> ColorKey option \<Rightarrow> nat \<Rightarrow> ColorKey list
     \<Rightarrow> (ColorKey \<Rightarrow> nat) \<times> ColorKey option \<times> nat" where
  "longest_loop longest runColor runLen [] = (longest, runColor, runLen)"
| "longest_loop longest runColor runLen (x # xs) =
     (if runColor = Some x then longest_loop longest runColor (runLen + 1) xs
      else longest_loop (flush longest runColor runLen) (Some x) 1 xs)"

definition longest_scan :: "ColorKey list \<Rightarrow> (ColorKey \<Rightarrow> nat)" where
  "longest_scan seq =
     (case longest_loop (\<lambda>c. 0) None 0 seq of
        (longest, runColor, runLen) \<Rightarrow> flush longest runColor runLen)"

subsection \<open>Distribution of the streak lengths\<close>

text \<open>The source's table has a row for Red and a row for Blue, each with the keys
  \<^verbatim>\<open>1, 2, 3, 4, "5", "6+"\<close>, all 0 at the start. The key of a run is
  \<^verbatim>\<open>runLen >= 6 ? "6+" : runLen\<close>. The model's table is a total function, 0 everywhere
  at the start; only the rows of Red and Blue are ever written. (The loop sets
  \<open>runColor\<close> and \<open>runLen\<close> together, to a colour and 1 or to \<^verbatim>\<open>null\<close> and 0, so the
  key of a counted run is one of the six.)\<close>

datatype bucket = Len nat | SixPlus

definition bucket_of :: "nat \<Rightarrow> bucket" where
  "bucket_of runLen = (if runLen \<ge> 6 then SixPlus else Len runLen)"

type_synonym dist_table = "ColorKey \<Rightarrow> bucket \<Rightarrow> nat"

text \<open>\<^verbatim>\<open>if (runColor && (runColor === "R" || runColor === "B")) dist[runColor][bucket]++\<close>,
  with \<open>d\<close> for the table \<^verbatim>\<open>dist\<close>.\<close>

definition count_run :: "dist_table \<Rightarrow> ColorKey option \<Rightarrow> nat \<Rightarrow> dist_table" where
  "count_run d runColor runLen =
     (case runColor of
        None \<Rightarrow> d
      | Some c \<Rightarrow>
          if c = R \<or> c = B
          then d(c := (d c)(bucket_of runLen := d c (bucket_of runLen) + 1))
          else d)"

fun dist_loop ::
  "dist_table \<Rightarrow> ColorKey option \<Rightarrow> nat \<Rightarrow> ColorKey list
     \<Rightarrow> dist_table \<times> ColorKey option \<times> nat" where
  "dist_loop d runColor runLen [] = (d, runColor, runLen)"
| "dist_loop d runColor runLen (x # xs) =
     (if x = T then dist_loop (count_run d runColor runLen) None 0 xs
      else if runColor = Some x then dist_loop d runColor (runLen + 1) xs
      else dist_loop (count_run d runColor runLen) (Some x) 1 xs)"

definition dist_scan :: "ColorKey list \<Rightarrow> dist_table" where
  "dist_scan seq =
     (case dist_loop (\<lambda>c b. 0) None 0 seq of
        (d, runColor, runLen) \<Rightarrow> count_run d runColor runLen)"

subsection \<open>Recent window\<close>

text \<open>\<^verbatim>\<open>history.slice(-n)\<close>: the last \<open>n\<close> elements, all of them when there are
  fewer; \<^verbatim>\<open>slice(-0)\<close> is \<^verbatim>\<open>slice(0)\<close>, the whole array.\<close>

definition lastN :: "'a list \<Rightarrow> nat \<Rightarrow> 'a list" where
  "lastN history n = (if n = 0 then history else drop (length history - n) history)"

definition count_values :: "ColorKey list \<Rightarrow> (ColorKey \<Rightarrow> nat)" where
  "count_values xs = fold (\<lambda>x count20. count20(x := count20 x + 1)) xs (\<lambda>c. 0)"

subsection \<open>Zebra\<close>

text \<open>The two \<^verbatim>\<open>else\<close> branches of the source both set \<open>zebraCur\<close> to 1.\<close>

fun zebra_loop :: "nat \<Rightarrow> nat \<Rightarrow> ColorKey option \<Rightarrow> ColorKey list \<Rightarrow> nat" where
  "zebra_loop zebraMax zebraCur lastColor [] = zebraMax"
| "zebra_loop zebraMax zebraCur lastColor (x # xs) =
     (if x = T then zebra_loop (max zebraMax zebraCur) 0 None xs
      else
        let zebraCur' =
              (if lastColor \<noteq> None \<and> Some x \<noteq> lastColor then zebraCur + 1
               else if lastColor = None then 1
               else 1)
        in zebra_loop (max zebraMax zebraCur') zebraCur' (Some x) xs)"

subsection \<open>The snapshot\<close>

text \<open>The field \<open>dist\<close> is written \<open>dist'\<close> (\<open>dist\<close> is the distance of a metric
  space in HOL).\<close>

record stats =
  total :: nat
  alternations :: nat
  currentStreak :: nat
  currentColor :: "ColorKey option"
  longest :: "ColorKey \<Rightarrow> nat"
  dist' :: dist_table
  last20 :: "ColorKey \<Rightarrow> nat"
  zebraMax :: nat

definition computeStats :: "('i, 't) Result list \<Rightarrow> stats" where
  "computeStats history =
     (let seq = map v history in
      \<lparr> total = length history,
        alternations = alternations_loop 0 None seq,
        currentStreak = fst (currentStreak_loop 0 None (rev seq)),
        currentColor = snd (currentStreak_loop 0 None (rev seq)),
        longest = longest_scan seq,
        dist' = dist_scan seq,
        last20 = count_values (map v (lastN history 20)),
        zebraMax = zebra_loop 0 0 None seq \<rparr>)"

text \<open>A record as \<^verbatim>\<open>push\<close> and \<^verbatim>\<open>handleBulkAdd\<close> create it: an identifier, the
  value and the time of creation.\<close>

definition outcome :: "string \<Rightarrow> ColorKey \<Rightarrow> nat \<Rightarrow> (string, nat) Result" where
  "outcome i c t = \<lparr> id' = i, v = c, ts = t \<rparr>"

text \<open>The history of the scenario \<^verbatim>\<open>[R,R,R,B,B,T,R]\<close>.\<close>

definition scenario_history :: "(string, nat) Result list" where
  "scenario_history =
     [outcome ''a'' R 1, outcome ''b'' R 2, outcome ''c'' R 3, outcome ''d'' B 4,
      outcome ''e'' B 5, outcome ''f'' T 6, outcome ''g'' R 7]"

section \<open>The signals\<close>

text \<open>
  The list \<^verbatim>\<open>signals\<close> of the component is computed from \<^verbatim>\<open>stats\<close> alone. Each
  entry is \<^verbatim>\<open>{ id, title, desc, on }\<close>; \<open>title\<close> and \<open>desc\<close> are display texts (a
  constant and a template filled with values of the snapshot) and are left out. The
  field \<open>id\<close> is written \<open>signal_id\<close>.

  The numbers of the source are IEEE doubles and \<^verbatim>\<open>/\<close> is their division. The
  model divides in the rationals and reads the literal \<^verbatim>\<open>0.6\<close> as \<open>6/10\<close>. On the
  counts of a window of at most 20 outcomes both give the same comparisons: the
  division of doubles is correctly rounded, \<open>3/5\<close> rounds to the double of the literal,
  and every other quotient of such counts is further from \<open>3/5\<close> than any rounding
  error.
\<close>

record signal =
  signal_id :: string
  on :: bool

definition total20 :: "stats \<Rightarrow> nat" where
  "total20 stats = last20 stats R + last20 stats B + last20 stats T"

definition redBias :: "stats \<Rightarrow> rat" where
  "redBias stats =
     (if total20 stats > 0 then of_nat (last20 stats R) / of_nat (total20 stats) else 0)"

definition blueBias :: "stats \<Rightarrow> rat" where
  "blueBias stats =
     (if total20 stats > 0 then of_nat (last20 stats B) / of_nat (total20 stats) else 0)"

definition signals :: "stats \<Rightarrow> signal list" where
  "signals stats =
     (let list = [];
          list = list @ [\<lparr> signal_id = ''zebra'', on = (zebraMax stats \<ge> 5) \<rparr>];
          list = list @ [\<lparr> signal_id = ''streaklong'',
                           on = (longest stats R \<ge> 5 \<or> longest stats B \<ge> 5) \<rparr>];
          list = list @ [\<lparr> signal_id = ''bias'',
                           on = (redBias stats \<ge> 6 / 10 \<or> blueBias stats \<ge> 6 / 10) \<rparr>];
          list = list @ [\<lparr> signal_id = ''ties'', on = (last20 stats T \<ge> 3) \<rparr>]
      in list)"

section \<open>Import of a JSON file\<close>

text \<open>
  \<open>json\<close> is a value as \<^verbatim>\<open>JSON.parse\<close> returns it. An object is the list of its
  properties; a number is abstracted to a rational (the importer only tests it for
  being zero).
\<close>

datatype json =
  JNull
| JBool bool
| JNum rat
| JStr string
| JArr "json list"
| JObj "(string \<times> json) list"

text \<open>Truthiness of a value: \<^verbatim>\<open>null\<close>, \<^verbatim>\<open>false\<close>, \<^verbatim>\<open>0\<close> and \<^verbatim>\<open>""\<close> are falsy,
  every array and object is truthy.\<close>

fun truthy :: "json \<Rightarrow> bool" where
  "truthy JNull = False"
| "truthy (JBool b) = b"
| "truthy (JNum n) = (n \<noteq> 0)"
| "truthy (JStr s) = (s \<noteq> [])"
| "truthy (JArr xs) = True"
| "truthy (JObj kvs) = True"

text \<open>Reading a property of a value other than \<^verbatim>\<open>null\<close>; \<open>None\<close> is
  \<^verbatim>\<open>undefined\<close>. The importer reads \<^verbatim>\<open>v\<close>, \<^verbatim>\<open>id\<close>, \<^verbatim>\<open>ts\<close> and \<^verbatim>\<open>results\<close>, which
  only an object can have. (Reading a property of \<^verbatim>\<open>null\<close> throws; the callers
  below treat \<^verbatim>\<open>null\<close> before they read.)\<close>

fun get_prop :: "json \<Rightarrow> string \<Rightarrow> json option" where
  "get_prop (JObj kvs) k = map_of kvs k"
| "get_prop j k = None"

text \<open>\<^verbatim>\<open>["R", "B", "T"].includes(x)\<close> holds when \<open>tag_of x\<close> is not \<open>None\<close>; then
  \<open>tag_of x\<close> is the tag.\<close>

definition tag_of :: "json option \<Rightarrow> ColorKey option" where
  "tag_of x =
     (if x = Some (JStr ''R'') then Some R
      else if x = Some (JStr ''B'') then Some B
      else if x = Some (JStr ''T'') then Some T
      else None)"

text \<open>\<^verbatim>\<open>a || b\<close> where \<open>a\<close> is a property that was read.\<close>

fun or_else :: "json option \<Rightarrow> json \<Rightarrow> json" where
  "or_else None d = d"
| "or_else (Some j) d = (if truthy j then j else d)"

text \<open>The predicate of the filter on a record array:
  \<^verbatim>\<open>r && ["R", "B", "T"].includes(r.v)\<close>.\<close>

definition valid_record :: "json \<Rightarrow> bool" where
  "valid_record r = (truthy r \<and> tag_of (get_prop r ''v'') \<noteq> None)"

text \<open>\<^verbatim>\<open>uid()\<close> and \<^verbatim>\<open>Date.now()\<close> read the random generator and the clock. The
  model takes their results as parameters: \<open>uid i\<close> and \<open>now i\<close> are what the two calls
  return in the callback of \<^verbatim>\<open>map\<close> at index \<open>i\<close>.
  \<^verbatim>\<open>{ id: r.id || uid(), v: r.v as ColorKey, ts: r.ts || Date.now() }\<close>\<close>

definition import_record ::
  "(nat \<Rightarrow> string) \<Rightarrow> (nat \<Rightarrow> rat) \<Rightarrow> nat \<Rightarrow> json \<Rightarrow> (json, json) Result" where
  "import_record uid now i r =
     \<lparr> id' = or_else (get_prop r ''id'') (JStr (uid i)),
       v = the (tag_of (get_prop r ''v'')),
       ts = or_else (get_prop r ''ts'') (JNum (now i)) \<rparr>"

text \<open>\<^verbatim>\<open>{ id: uid(), v, ts: Date.now() }\<close> for an element of \<^verbatim>\<open>results\<close>.\<close>

definition import_tag ::
  "(nat \<Rightarrow> string) \<Rightarrow> (nat \<Rightarrow> rat) \<Rightarrow> nat \<Rightarrow> json \<Rightarrow> (json, json) Result" where
  "import_tag uid now i x =
     \<lparr> id' = JStr (uid i), v = the (tag_of (Some x)), ts = JNum (now i) \<rparr>"

text \<open>The state of the component that the importer touches: the history and the
  alerts shown so far. \<open>Invalid_JSON\<close> is the alert of the last \<^verbatim>\<open>else\<close> branch
  (the JSON is invalid) and \<open>Read_failure\<close> is \<^verbatim>\<open>alert("Falha ao ler JSON")\<close> of the
  \<^verbatim>\<open>catch\<close> block.\<close>

datatype alert = Invalid_JSON | Read_failure

record app =
  history :: "(json, json) Result list"
  alerts :: "alert list"

text \<open>
  The handler \<^verbatim>\<open>reader.onload\<close> of \<open>importJson\<close>. The argument \<open>parsed\<close> is the
  result of \<^verbatim>\<open>JSON.parse\<close> on the text of the file, \<open>None\<close> when it throws. A
  \<^verbatim>\<open>null\<close> is not an array, and reading \<^verbatim>\<open>parsed.results\<close> from it throws; the
  \<^verbatim>\<open>catch\<close> block handles both exceptions.
\<close>

definition importJson ::
  "(nat \<Rightarrow> string) \<Rightarrow> (nat \<Rightarrow> rat) \<Rightarrow> json option \<Rightarrow> app \<Rightarrow> app" where
  "importJson uid now parsed st =
     (case parsed of
        None \<Rightarrow> st\<lparr> alerts := alerts st @ [Read_failure] \<rparr>
      | Some (JArr rs) \<Rightarrow>
          st\<lparr> history :=
                map (\<lambda>(i, r). import_record uid now i r)
                    (enumerate 0 (filter valid_record rs)) \<rparr>
      | Some JNull \<Rightarrow> st\<lparr> alerts := alerts st @ [Read_failure] \<rparr>
      | Some p \<Rightarrow>
          (case get_prop p ''results'' of
             Some (JArr xs) \<Rightarrow>
               st\<lparr> history :=
                     map (\<lambda>(i, x). import_tag uid now i x)
                         (enumerate 0 (filter (\<lambda>x. tag_of (Some x) \<noteq> None) xs)) \<rparr>
           | _ \<Rightarrow> st\<lparr> alerts := alerts st @ [Invalid_JSON] \<rparr>))"

text \<open>The two shapes of a payload that the importer accepts.\<close>

definition is_record_array :: "json option \<Rightarrow> bool" where
  "is_record_array parsed = (case parsed of Some (JArr rs) \<Rightarrow> True | _ \<Rightarrow> False)"

definition has_results_array :: "json option \<Rightarrow> bool" where
  "has_results_array parsed =
     (case parsed of
        Some (JObj kvs) \<Rightarrow> (case map_of kvs ''results'' of Some (JArr xs) \<Rightarrow> True | _ \<Rightarrow> False)
      | _ \<Rightarrow> False)"

section \<open>Notions and sample data for the properties\<close>

text \<open>Two outcomes next to each other that are not a change between Red and Blue:
  one of them is a Tie, or they are the same.\<close>

definition same_or_tie :: "ColorKey \<Rightarrow> ColorKey \<Rightarrow> bool" where
  "same_or_tie a b = (a = T \<or> b = T \<or> a = b)"

text \<open>A history of five outcomes, three of them Red.\<close>

definition red_history :: "(string, nat) Result list" where
  "red_history =
     [outcome ''a'' R 11, outcome ''b'' R 12, outcome ''c'' R 13, outcome ''d'' B 14,
      outcome ''e'' T 15]"

text \<open>A history of five outcomes with one Red, two Ties and two Blues.\<close>

definition mixed_history :: "(string, nat) Result list" where
  "mixed_history =
     [outcome ''a'' R 21, outcome ''b'' T 22, outcome ''c'' T 23, outcome ''d'' B 24,
      outcome ''e'' B 25]"

text \<open>A state with one record, and a record array with a record without identifier
  and time stamp, a record with an unknown value, a \<^verbatim>\<open>null\<close> and a full record.\<close>

definition sample_state :: app where
  "sample_state = \<lparr> history = [\<lparr> id' = JStr ''k'', v = R, ts = JNum 5 \<rparr>], alerts = [] \<rparr>"

definition sample_records :: "json list" where
  "sample_records =
     [JObj [(''v'', JStr ''R'')],
      JObj [(''id'', JStr ''x1''), (''v'', JStr ''X'')],
      JNull,
      JObj [(''id'', JStr ''x2''), (''v'', JStr ''B''), (''ts'', JNum 7)]]"

section \<open>Properties of the statistics\<close>

subsection \<open>The fields of the snapshot\<close>

lemma computeStats_sel:
  shows "total (computeStats h) = length h"
    and "alternations (computeStats h) = alternations_loop 0 None (map v h)"
    and "currentStreak (computeStats h) = fst (currentStreak_loop 0 None (rev (map v h)))"
    and "currentColor (computeStats h) = snd (currentStreak_loop 0 None (rev (map v h)))"
    and "longest (computeStats h) = longest_scan (map v h)"
    and "dist' (computeStats h) = dist_scan (map v h)"
    and "last20 (computeStats h) = count_values (map v (lastN h 20))"
    and "zebraMax (computeStats h) = zebra_loop 0 0 None (map v h)"
  by (simp_all add: computeStats_def Let_def)

lemma scenario_seq: "map v scenario_history = [R, R, R, B, B, T, R]"
  by (simp add: scenario_history_def outcome_def)

subsection \<open>The scenario\<close>

text \<open>
  Claim C1, as the code has it. For the history \<^verbatim>\<open>[R,R,R,B,B,T,R]\<close> the longest
  streaks are 3 for Red, 2 for Blue and 1 for Tie, the current streak is 1 and its
  colour is Red. The alternation scan skips the Tie and keeps Blue as the last colour,
  so the final Red is a second change of colour: \<open>alternations\<close> is 2.
\<close>

theorem computeStats_scenario:
  "longest (computeStats scenario_history) R = 3 \<and>
   longest (computeStats scenario_history) B = 2 \<and>
   longest (computeStats scenario_history) T = 1 \<and>
   currentStreak (computeStats scenario_history) = 1 \<and>
   currentColor (computeStats scenario_history) = Some R \<and>
   alternations (computeStats scenario_history) = 2"
  by (simp add: computeStats_sel scenario_seq longest_scan_def flush_def)

text \<open>The scenario with \<open>alternations = 1\<close>, as claim C1 is worded, does not hold.\<close>

theorem computeStats_scenario_counterexample:
  "\<not> (longest (computeStats scenario_history) R = 3 \<and>
      longest (computeStats scenario_history) B = 2 \<and>
      longest (computeStats scenario_history) T = 1 \<and>
      currentStreak (computeStats scenario_history) = 1 \<and>
      currentColor (computeStats scenario_history) = Some R \<and>
      alternations (computeStats scenario_history) = 1)"
  by (simp add: computeStats_sel scenario_seq)

subsection \<open>The current streak\<close>

lemma currentStreak_loop_color:
  "snd (currentStreak_loop n (Some c) xs) = Some c"
  by (induction xs arbitrary: n) simp_all

lemma currentStreak_loop_lower:
  "n \<le> fst (currentStreak_loop n (Some c) xs)"
proof (induction xs arbitrary: n)
  case Nil
  show ?case by simp
next
  case (Cons x xs)
  from Cons.IH [of "n + 1"] show ?case by simp
qed

lemma currentStreak_loop_upper:
  "fst (currentStreak_loop n (Some c) xs) \<le> n + length xs"
proof (induction xs arbitrary: n)
  case Nil
  show ?case by simp
next
  case (Cons x xs)
  from Cons.IH [of "n + 1"] show ?case by simp
qed

lemma currentStreak_loop_init:
  "fst (currentStreak_loop 0 None xs) \<le> length xs \<and>
   (snd (currentStreak_loop 0 None xs) = None \<longleftrightarrow> fst (currentStreak_loop 0 None xs) = 0)"
proof (cases xs)
  case Nil
  then show ?thesis by simp
next
  case (Cons x ys)
  show ?thesis
  proof (cases "x = T")
    case True
    with Cons show ?thesis by simp
  next
    case False
    from Cons False show ?thesis
      using currentStreak_loop_color [of 1 x ys] currentStreak_loop_lower [of 1 x ys]
        currentStreak_loop_upper [of 1 x ys]
      by simp
  qed
qed

text \<open>
  Claim C5. For every history the current streak is between 0 and the number of
  outcomes, and the current colour is \<^verbatim>\<open>null\<close> exactly when the current streak is 0.
\<close>

theorem currentStreak_bounds:
  "0 \<le> currentStreak (computeStats h) \<and>
   currentStreak (computeStats h) \<le> total (computeStats h) \<and>
   (currentColor (computeStats h) = None \<longleftrightarrow> currentStreak (computeStats h) = 0)"
  using currentStreak_loop_init [of "rev (map v h)"]
  by (simp add: computeStats_sel)

theorem currentStreak_bounds_witness:
  "currentStreak (computeStats scenario_history) \<le> total (computeStats scenario_history) \<and>
   currentColor (computeStats scenario_history) \<noteq> None \<and>
   currentStreak (computeStats scenario_history) \<noteq> 0"
  using currentStreak_bounds [of scenario_history]
  by (simp add: computeStats_sel scenario_seq)

subsection \<open>The longest streak covers the current one\<close>

text \<open>Once a colour is set, the backward scan counts the outcomes of that colour at
  the end of the sequence.\<close>

lemma currentStreak_loop_takeWhile:
  "c \<noteq> T \<Longrightarrow>
   currentStreak_loop n (Some c) xs = (n + length (takeWhile (\<lambda>y. y = c) xs), Some c)"
  by (induction xs arbitrary: n) simp_all

lemma currentStreak_loop_last:
  assumes "snd (currentStreak_loop 0 None (rev xs)) = Some c"
  shows "xs \<noteq> [] \<and> last xs = c \<and>
         fst (currentStreak_loop 0 None (rev xs)) = length (takeWhile (\<lambda>y. y = c) (rev xs))"
proof (cases xs rule: rev_cases)
  case Nil
  with assms show ?thesis by simp
next
  case (snoc ys y)
  show ?thesis
  proof (cases "y = T")
    case True
    with snoc assms show ?thesis by simp
  next
    case False
    with snoc assms show ?thesis by (simp add: currentStreak_loop_takeWhile)
  qed
qed

text \<open>One more outcome at the end of the sequence is one more step of the forward
  scan.\<close>

lemma longest_loop_snoc:
  "longest_loop lg rc rl (xs @ [x]) =
     (case longest_loop lg rc rl xs of
        (lg', rc', rl') \<Rightarrow>
          if rc' = Some x then (lg', rc', rl' + 1) else (flush lg' rc' rl', Some x, 1))"
  by (induction xs arbitrary: lg rc rl) simp_all

text \<open>When the forward scan ends, the open run is the run at the end of the
  sequence.\<close>

lemma longest_loop_run:
  "xs \<noteq> [] \<Longrightarrow>
   \<exists>lg. longest_loop (\<lambda>c. 0) None 0 xs =
           (lg, Some (last xs), length (takeWhile (\<lambda>y. y = last xs) (rev xs)))"
proof (induction xs rule: rev_induct)
  case Nil
  then show ?case by simp
next
  case (snoc x xs)
  show ?case
  proof (cases "xs = []")
    case True
    then show ?thesis by simp
  next
    case False
    with snoc.IH obtain lg where
      run: "longest_loop (\<lambda>c. 0) None 0 xs =
              (lg, Some (last xs), length (takeWhile (\<lambda>y. y = last xs) (rev xs)))"
      by blast
    show ?thesis
    proof (cases "last xs = x")
      case True
      with run show ?thesis by (simp add: longest_loop_snoc)
    next
      case neq: False
      then have "takeWhile (\<lambda>y. y = x) (rev xs) = []"
        by (simp add: takeWhile_eq_Nil_iff hd_rev)
      with run neq show ?thesis by (simp add: longest_loop_snoc)
    qed
  qed
qed

lemma longest_scan_last_run:
  assumes "xs \<noteq> []"
  shows "length (takeWhile (\<lambda>y. y = last xs) (rev xs)) \<le> longest_scan xs (last xs)"
proof -
  from longest_loop_run [OF assms] obtain lg where
    "longest_loop (\<lambda>c. 0) None 0 xs =
       (lg, Some (last xs), length (takeWhile (\<lambda>y. y = last xs) (rev xs)))"
    by blast
  then show ?thesis by (simp add: longest_scan_def flush_def)
qed

text \<open>
  Claim C6. For every history and every colour \<open>c\<close>: when the current colour is \<open>c\<close>,
  the longest streak of \<open>c\<close> is at least the current streak.
\<close>

theorem longest_covers_currentStreak:
  assumes "currentColor (computeStats h) = Some c"
  shows "longest (computeStats h) c \<ge> currentStreak (computeStats h)"
proof -
  from assms have "snd (currentStreak_loop 0 None (rev (map v h))) = Some c"
    by (simp add: computeStats_sel)
  from currentStreak_loop_last [OF this]
  have ne: "map v h \<noteq> []" and l: "last (map v h) = c"
    and cs: "fst (currentStreak_loop 0 None (rev (map v h))) =
               length (takeWhile (\<lambda>y. y = c) (rev (map v h)))"
    by simp_all
  from longest_scan_last_run [OF ne] l cs show ?thesis
    by (simp add: computeStats_sel)
qed

theorem longest_covers_currentStreak_witness:
  "currentColor (computeStats scenario_history) = Some R \<and>
   longest (computeStats scenario_history) R \<ge> currentStreak (computeStats scenario_history)"
proof -
  have cc: "currentColor (computeStats scenario_history) = Some R"
    by (simp add: computeStats_sel scenario_seq)
  from cc longest_covers_currentStreak [OF cc] show ?thesis by blast
qed

subsection \<open>Alternations and ties\<close>

lemma alternations_loop_skips_ties:
  "alternations_loop n lc (filter (\<lambda>x. x \<noteq> T) xs) = alternations_loop n lc xs"
  by (induction xs arbitrary: n lc) simp_all

text \<open>
  Claim C7. Two histories whose outcomes other than Tie are the same, in the same
  order, have the same number of alternations: adding or removing Ties anywhere does
  not change the count.
\<close>

theorem alternations_tie_invariant:
  assumes "filter (\<lambda>x. x \<noteq> T) (map v h1) = filter (\<lambda>x. x \<noteq> T) (map v h2)"
  shows "alternations (computeStats h1) = alternations (computeStats h2)"
proof -
  have "alternations_loop 0 None (map v h1) =
          alternations_loop 0 None (filter (\<lambda>x. x \<noteq> T) (map v h1))"
    by (simp only: alternations_loop_skips_ties)
  also have "\<dots> = alternations_loop 0 None (filter (\<lambda>x. x \<noteq> T) (map v h2))"
    by (simp only: assms)
  also have "\<dots> = alternations_loop 0 None (map v h2)"
    by (simp only: alternations_loop_skips_ties)
  finally show ?thesis by (simp add: computeStats_sel)
qed

theorem alternations_tie_invariant_witness:
  "filter (\<lambda>x. x \<noteq> T) (map v scenario_history) =
     filter (\<lambda>x. x \<noteq> T)
       (map v [outcome ''p'' T 1, outcome ''q'' R 2, outcome ''r'' R 3, outcome ''s'' T 4,
               outcome ''t'' R 5, outcome ''u'' B 6, outcome ''w'' B 7, outcome ''x'' R 8]) \<and>
   alternations (computeStats scenario_history) =
     alternations (computeStats
       [outcome ''p'' T 1, outcome ''q'' R 2, outcome ''r'' R 3, outcome ''s'' T 4,
        outcome ''t'' R 5, outcome ''u'' B 6, outcome ''w'' B 7, outcome ''x'' R 8])"
proof -
  have same:
    "filter (\<lambda>x. x \<noteq> T) (map v scenario_history) =
       filter (\<lambda>x. x \<noteq> T)
         (map v [outcome ''p'' T 1, outcome ''q'' R 2, outcome ''r'' R 3, outcome ''s'' T 4,
                 outcome ''t'' R 5, outcome ''u'' B 6, outcome ''w'' B 7, outcome ''x'' R 8])"
    by (simp add: scenario_seq outcome_def)
  from same alternations_tie_invariant [OF same] show ?thesis by blast
qed

subsection \<open>Only the values count\<close>

lemma lastN_map: "map f (lastN h n) = lastN (map f h) n"
  by (simp add: lastN_def drop_map)

text \<open>
  Claim C10. The snapshot depends on the sequence of the values only: two histories
  with the same values in the same order (hence of the same length) have the same
  snapshot, whatever the identifiers and the time stamps of their records are. As a
  function of HOL, \<open>computeStats\<close> gives one result for one argument.
\<close>

theorem computeStats_values_only:
  assumes "map v h1 = map v h2"
  shows "computeStats h1 = computeStats h2"
proof -
  from assms have "length (map v h1) = length (map v h2)" by simp
  then have len: "length h1 = length h2" by simp
  have "map v (lastN h1 20) = map v (lastN h2 20)"
    by (simp only: lastN_map assms)
  with assms len show ?thesis
    by (simp add: computeStats_def)
qed

theorem computeStats_values_only_witness:
  "map v [outcome ''a'' R 1, outcome ''b'' T 2, outcome ''c'' B 3] =
     map v [\<lparr> id' = 7 :: nat, v = R, ts = ''noon'' \<rparr>, \<lparr> id' = 5, v = T, ts = ''dusk'' \<rparr>,
            \<lparr> id' = 9, v = B, ts = ''dawn'' \<rparr>] \<and>
   computeStats [outcome ''a'' R 1, outcome ''b'' T 2, outcome ''c'' B 3] =
     computeStats [\<lparr> id' = 7 :: nat, v = R, ts = ''noon'' \<rparr>, \<lparr> id' = 5, v = T, ts = ''dusk'' \<rparr>,
                   \<lparr> id' = 9, v = B, ts = ''dawn'' \<rparr>]"
proof -
  have same:
    "map v [outcome ''a'' R 1, outcome ''b'' T 2, outcome ''c'' B 3] =
       map v [\<lparr> id' = 7 :: nat, v = R, ts = ''noon'' \<rparr>, \<lparr> id' = 5, v = T, ts = ''dusk'' \<rparr>,
              \<lparr> id' = 9, v = B, ts = ''dawn'' \<rparr>]"
    by (simp add: outcome_def)
  from same computeStats_values_only [OF same] show ?thesis by blast
qed

subsection \<open>Zebra\<close>

text \<open>A step of the loop on an outcome other than Tie: the run goes on or starts
  again at 1, and it is never empty afterwards.\<close>

lemma zebra_loop_step:
  assumes "x \<noteq> T"
  obtains zc' where "0 < zc'" and "zc' \<le> zc + 1"
    and "zebra_loop zm zc lc (x # xs) = zebra_loop (max zm zc') zc' (Some x) xs"
proof (cases "lc \<noteq> None \<and> Some x \<noteq> lc")
  case True
  with assms have
    "zebra_loop zm zc lc (x # xs) = zebra_loop (max zm (zc + 1)) (zc + 1) (Some x) xs"
    by (simp add: Let_def)
  then show ?thesis using that [of "zc + 1"] by simp
next
  case False
  with assms have "zebra_loop zm zc lc (x # xs) = zebra_loop (max zm 1) 1 (Some x) xs"
    by (auto simp: Let_def)
  then show ?thesis using that [of 1] by simp
qed

lemma zebra_loop_upper:
  "zm \<le> k \<Longrightarrow> zc \<le> k \<Longrightarrow> zebra_loop zm zc lc xs \<le> k + length xs"
proof (induction xs arbitrary: zm zc lc k)
  case Nil
  then show ?case by simp
next
  case (Cons x xs)
  show ?case
  proof (cases "x = T")
    case True
    from Cons.prems have "zebra_loop (max zm zc) 0 None xs \<le> k + length xs"
      by (intro Cons.IH) simp_all
    with True show ?thesis by simp
  next
    case False
    then obtain zc' where le: "zc' \<le> zc + 1"
      and step: "zebra_loop zm zc lc (x # xs) = zebra_loop (max zm zc') zc' (Some x) xs"
      by (rule zebra_loop_step)
    from Cons.prems le have "zebra_loop (max zm zc') zc' (Some x) xs \<le> Suc k + length xs"
      by (intro Cons.IH) simp_all
    with step show ?thesis by simp
  qed
qed

lemma zebra_loop_lower: "zm \<le> zebra_loop zm zc lc xs"
proof (induction xs arbitrary: zm zc lc)
  case Nil
  show ?case by simp
next
  case (Cons x xs)
  show ?case
  proof (cases "x = T")
    case True
    from Cons.IH [of "max zm zc" 0 None] True show ?thesis by simp
  next
    case False
    then obtain zc' where
      step: "zebra_loop zm zc lc (x # xs) = zebra_loop (max zm zc') zc' (Some x) xs"
      by (rule zebra_loop_step)
    from Cons.IH [of "max zm zc'" zc' "Some x"] step show ?thesis by simp
  qed
qed

lemma zebra_loop_ties: "\<forall>x\<in>set xs. x = T \<Longrightarrow> zebra_loop zm 0 None xs = zm"
  by (induction xs arbitrary: zm) simp_all

lemma zebra_loop_positive:
  "\<exists>x\<in>set xs. x \<noteq> T \<Longrightarrow> 0 < zebra_loop zm zc lc xs"
proof (induction xs arbitrary: zm zc lc)
  case Nil
  then show ?case by simp
next
  case (Cons x xs)
  show ?case
  proof (cases "x = T")
    case True
    with Cons.prems have "\<exists>y\<in>set xs. y \<noteq> T" by simp
    from Cons.IH [OF this, of "max zm zc" 0 None] True show ?thesis by simp
  next
    case False
    then obtain zc' where pos: "0 < zc'"
      and step: "zebra_loop zm zc lc (x # xs) = zebra_loop (max zm zc') zc' (Some x) xs"
      by (rule zebra_loop_step)
    from pos have "0 < max zm zc'" by simp
    also have "max zm zc' \<le> zebra_loop (max zm zc') zc' (Some x) xs"
      by (rule zebra_loop_lower)
    finally show ?thesis using step by simp
  qed
qed

text \<open>Without a change between Red and Blue the run never gets longer than 1.\<close>

lemma zebra_loop_calm:
  "zm \<le> 1 \<Longrightarrow> zc \<le> 1 \<Longrightarrow>
   (case lc of
      None \<Rightarrow> successively same_or_tie xs
    | Some c \<Rightarrow> c \<noteq> T \<and> successively same_or_tie (c # xs)) \<Longrightarrow>
   zebra_loop zm zc lc xs \<le> 1"
proof (induction xs arbitrary: zm zc lc)
  case Nil
  then show ?case by simp
next
  case (Cons x xs)
  show ?case
  proof (cases "x = T")
    case True
    from Cons.prems have "successively same_or_tie xs"
      by (auto split: option.splits simp: successively_Cons)
    with Cons.prems have "zebra_loop (max zm zc) 0 None xs \<le> 1"
      by (intro Cons.IH) simp_all
    with True show ?thesis by simp
  next
    case False
    from Cons.prems False have same: "lc = None \<or> lc = Some x"
      by (auto split: option.splits simp: same_or_tie_def)
    from Cons.prems have "successively same_or_tie (x # xs)"
      by (auto split: option.splits)
    with False Cons.prems have "zebra_loop (max zm 1) 1 (Some x) xs \<le> 1"
      by (intro Cons.IH) simp_all
    with False same show ?thesis by (auto simp: Let_def)
  qed
qed

text \<open>
  Claim C4, as the code has it. For every history \<open>zebraMax\<close> is at most the number of
  outcomes, and it is 0 exactly when the history has no outcome other than Tie. A run
  counts outcomes, not changes: a history with an outcome other than Tie in which no two
  neighbours are a Red and a Blue has \<open>zebraMax\<close> 1 (at most 1 and not 0), not 0.
\<close>

theorem zebraMax_bounds:
  "zebraMax (computeStats h) \<le> total (computeStats h) \<and>
   (zebraMax (computeStats h) = 0 \<longleftrightarrow> (\<forall>x\<in>set (map v h). x = T)) \<and>
   (successively same_or_tie (map v h) \<longrightarrow> zebraMax (computeStats h) \<le> 1)"
proof (intro conjI impI)
  show "zebraMax (computeStats h) \<le> total (computeStats h)"
    using zebra_loop_upper [of 0 0 0 None "map v h"] by (simp add: computeStats_sel)
  show "zebraMax (computeStats h) = 0 \<longleftrightarrow> (\<forall>x\<in>set (map v h). x = T)"
  proof (cases "\<forall>x\<in>set (map v h). x = T")
    case True
    from zebra_loop_ties [OF this, of 0] True show ?thesis
      by (simp add: computeStats_sel)
  next
    case False
    then have "\<exists>x\<in>set (map v h). x \<noteq> T" by blast
    from zebra_loop_positive [OF this, of 0 0 None] False show ?thesis
      by (simp add: computeStats_sel)
  qed
  show "zebraMax (computeStats h) \<le> 1" if "successively same_or_tie (map v h)"
    using zebra_loop_calm [where zm = 0 and zc = 0 and lc = None and xs = "map v h"] that
    by (simp add: computeStats_sel)
qed

text \<open>One Red outcome alone (fewer than two consecutive outcomes other than Tie) gives
  \<open>zebraMax = 1\<close>, so the second half of claim C4 as it is worded does not hold.\<close>

theorem zebraMax_single_counterexample:
  "length [outcome ''a'' R 1] < 2 \<and> zebraMax (computeStats [outcome ''a'' R 1]) = 1"
  by (simp add: computeStats_sel outcome_def)

theorem zebraMax_bounds_witness:
  "successively same_or_tie
     (map v [outcome ''a'' R 1, outcome ''b'' R 2, outcome ''c'' T 3, outcome ''d'' B 4]) \<and>
   zebraMax (computeStats
     [outcome ''a'' R 1, outcome ''b'' R 2, outcome ''c'' T 3, outcome ''d'' B 4]) = 1 \<and>
   map v [outcome ''e'' T 1, outcome ''f'' T 2] = [T, T] \<and>
   zebraMax (computeStats [outcome ''e'' T 1, outcome ''f'' T 2]) = 0"
proof -
  have quiet: "successively same_or_tie
      (map v [outcome ''a'' R 1, outcome ''b'' R 2, outcome ''c'' T 3, outcome ''d'' B 4])"
    by (simp add: outcome_def same_or_tie_def)
  have coloured: "\<not> (\<forall>x\<in>set (map v
      [outcome ''a'' R 1, outcome ''b'' R 2, outcome ''c'' T 3, outcome ''d'' B 4]). x = T)"
    by (simp add: outcome_def)
  have ties: "map v [outcome ''e'' T 1, outcome ''f'' T 2] = [T, T]"
    by (simp add: outcome_def)
  then have all_ties: "\<forall>x\<in>set (map v [outcome ''e'' T 1, outcome ''f'' T 2]). x = T"
    by simp
  from zebraMax_bounds
         [of "[outcome ''a'' R 1, outcome ''b'' R 2, outcome ''c'' T 3, outcome ''d'' B 4]"]
       quiet coloured
  have "zebraMax (computeStats
      [outcome ''a'' R 1, outcome ''b'' R 2, outcome ''c'' T 3, outcome ''d'' B 4]) \<le> 1 \<and>
    zebraMax (computeStats
      [outcome ''a'' R 1, outcome ''b'' R 2, outcome ''c'' T 3, outcome ''d'' B 4]) \<noteq> 0"
    by blast
  then have one: "zebraMax (computeStats
      [outcome ''a'' R 1, outcome ''b'' R 2, outcome ''c'' T 3, outcome ''d'' B 4]) = 1"
    by arith
  from zebraMax_bounds [of "[outcome ''e'' T 1, outcome ''f'' T 2]"] all_ties
  have "zebraMax (computeStats [outcome ''e'' T 1, outcome ''f'' T 2]) = 0"
    by blast
  with quiet one ties show ?thesis by blast
qed

section \<open>Properties of the bulk parser\<close>

lemmas parse_defs = parseBulk_def split_def clean_def toUpperCase_def upper_char_def isNoise_def
  isSpace_def isSplitSep_def classify_def

text \<open>The text of the spec's example, with blanks around the hyphen, parses to the
  three outcomes: the blanks and the pipe split it, and the lone hyphen is a token that
  is dropped.\<close>

lemma parseBulk_spaced: "parseBulk '' R - B | T '' = [R, B, T]"
  by (simp add: parse_defs)

text \<open>
  Claim C3 says that the hyphen splits, so that \<^verbatim>\<open>"R-B"\<close> parses to Red, Blue. The
  cleaning step keeps the hyphen as a separator, but the class of the split has the
  range from backslash to pipe where the hyphen was meant: \<^verbatim>\<open>"R-B"\<close> stays one token,
  which is no tag, and the result is empty.
\<close>

theorem parseBulk_hyphen: "parseBulk ''R-B'' = []"
  by (simp add: parse_defs)

lemma split_loop_no_separator:
  "\<forall>c\<in>set cs. \<not> isSplitSep c \<Longrightarrow> split_loop cur cs = [rev cur @ cs]"
  by (induction cs arbitrary: cur) simp_all

lemma letters_kept:
  "c \<in> set ''RBTEDLUI-'' \<Longrightarrow> \<not> isNoise c \<and> \<not> isSplitSep c"
  by (auto simp: isNoise_def isSplitSep_def isSpace_def)

lemma classify_word:
  "classify t \<noteq> None \<longleftrightarrow> t \<in> set [''R'', ''RED'', ''B'', ''BLUE'', ''T'', ''TIE'']"
  by (auto simp: classify_def)

text \<open>
  Claim C9. The parser matches whole tokens only: the result has one outcome for each
  token of the cleaned upper-case text that is exactly \<^verbatim>\<open>R\<close>, \<^verbatim>\<open>RED\<close>, \<^verbatim>\<open>B\<close>, \<^verbatim>\<open>BLUE\<close>,
  \<^verbatim>\<open>T\<close> or \<^verbatim>\<open>TIE\<close>, and nothing for any other token. A text made of letters of the
  tags (in either case) and hyphens, without a separator, is one token; unless it is one
  of the six words, the result is empty: \<^verbatim>\<open>"RB"\<close>, \<^verbatim>\<open>"RR"\<close> and \<^verbatim>\<open>"REDBLUE"\<close> are not
  split into tags.
\<close>

theorem parseBulk_whole_tokens:
  "length (parseBulk text) =
     length (filter (\<lambda>t. t \<in> set [''R'', ''RED'', ''B'', ''BLUE'', ''T'', ''TIE''])
               (split (clean (toUpperCase text)))) \<and>
   (set (toUpperCase text) \<subseteq> set ''RBTEDLUI-'' \<and>
    toUpperCase text \<notin> set [''R'', ''RED'', ''B'', ''BLUE'', ''T'', ''TIE''] \<longrightarrow>
      parseBulk text = [])"
proof (intro conjI impI)
  have "length (parseBulk text) =
          length (filter (\<lambda>t. classify t \<noteq> None) (split (clean (toUpperCase text))))"
    by (simp add: parseBulk_def filter_map comp_def)
  also have "(\<lambda>t. classify t \<noteq> None) =
               (\<lambda>t. t \<in> set [''R'', ''RED'', ''B'', ''BLUE'', ''T'', ''TIE''])"
    by (rule ext) (rule classify_word)
  finally show "length (parseBulk text) =
     length (filter (\<lambda>t. t \<in> set [''R'', ''RED'', ''B'', ''BLUE'', ''T'', ''TIE''])
               (split (clean (toUpperCase text))))" .
next
  assume whole: "set (toUpperCase text) \<subseteq> set ''RBTEDLUI-'' \<and>
    toUpperCase text \<notin> set [''R'', ''RED'', ''B'', ''BLUE'', ''T'', ''TIE'']"
  then have kept: "\<forall>c\<in>set (toUpperCase text). \<not> isNoise c \<and> \<not> isSplitSep c"
    using letters_kept by blast
  then have "clean (toUpperCase text) = toUpperCase text"
    by (simp add: clean_def map_idI)
  moreover from kept have "split (toUpperCase text) = [toUpperCase text]"
    by (simp add: split_def split_loop_no_separator)
  moreover from whole have "classify (toUpperCase text) = None"
    by (simp add: classify_def)
  ultimately show "parseBulk text = []" by (simp add: parseBulk_def)
qed

theorem parseBulk_whole_tokens_witness:
  "set (toUpperCase ''REDBLUE'') \<subseteq> set ''RBTEDLUI-'' \<and>
   toUpperCase ''REDBLUE'' \<notin> set [''R'', ''RED'', ''B'', ''BLUE'', ''T'', ''TIE''] \<and>
   parseBulk ''REDBLUE'' = [] \<and> parseBulk ''RB'' = [] \<and> parseBulk ''RR'' = []"
proof -
  have up: "toUpperCase ''REDBLUE'' = ''REDBLUE''" "toUpperCase ''RB'' = ''RB''"
    "toUpperCase ''RR'' = ''RR''"
    by (simp_all add: toUpperCase_def upper_char_def)
  have redblue: "set (toUpperCase ''REDBLUE'') \<subseteq> set ''RBTEDLUI-'' \<and>
      toUpperCase ''REDBLUE'' \<notin> set [''R'', ''RED'', ''B'', ''BLUE'', ''T'', ''TIE'']"
    by (simp add: up)
  have rb: "set (toUpperCase ''RB'') \<subseteq> set ''RBTEDLUI-'' \<and>
      toUpperCase ''RB'' \<notin> set [''R'', ''RED'', ''B'', ''BLUE'', ''T'', ''TIE'']"
    by (simp add: up)
  have rr: "set (toUpperCase ''RR'') \<subseteq> set ''RBTEDLUI-'' \<and>
      toUpperCase ''RR'' \<notin> set [''R'', ''RED'', ''B'', ''BLUE'', ''T'', ''TIE'']"
    by (simp add: up)
  from redblue parseBulk_whole_tokens [of "''REDBLUE''", THEN conjunct2, rule_format, OF redblue]
    parseBulk_whole_tokens [of "''RB''", THEN conjunct2, rule_format, OF rb]
    parseBulk_whole_tokens [of "''RR''", THEN conjunct2, rule_format, OF rr]
  show ?thesis by blast
qed

section \<open>Properties of the signals\<close>

text \<open>The threshold in whole numbers: a share of at least \<open>6/10\<close> of \<open>t\<close> outcomes.\<close>

lemma bias_threshold:
  "0 < t \<Longrightarrow> ((6::rat) / 10 \<le> of_nat n / of_nat t) = (3 * t \<le> 5 * n)"
proof -
  assume "0 < t"
  then have "((6::rat) / 10 \<le> of_nat n / of_nat t) = ((6::rat) * of_nat t \<le> 10 * of_nat n)"
    by (simp add: field_simps)
  also have "\<dots> = ((of_nat (6 * t) :: rat) \<le> of_nat (10 * n))"
    by simp
  also have "\<dots> = (6 * t \<le> 10 * n)"
    by (simp only: of_nat_le_iff)
  also have "\<dots> = (3 * t \<le> 5 * n)"
    by arith
  finally show ?thesis .
qed

text \<open>
  Claim C2. For every snapshot there are exactly four signals, in the order zebra, long
  streak, recent bias, frequent ties, whatever their flags are. The flags are:
  \<open>zebraMax \<ge> 5\<close>; longest streak of Red or of Blue at least 5; share of Red or of Blue in
  the recent window at least 0.6, where the total of the window is the sum of its
  counts of Red, Blue and Tie and both shares are 0 when that total is 0; at least 3
  Ties in the recent window.
\<close>

theorem signals_four:
  "length (signals s) = 4 \<and>
   map signal_id (signals s) = [''zebra'', ''streaklong'', ''bias'', ''ties''] \<and>
   map on (signals s) =
     [zebraMax s \<ge> 5,
      longest s R \<ge> 5 \<or> longest s B \<ge> 5,
      redBias s \<ge> 6 / 10 \<or> blueBias s \<ge> 6 / 10,
      last20 s T \<ge> 3] \<and>
   total20 s = last20 s R + last20 s B + last20 s T \<and>
   (total20 s = 0 \<longrightarrow> redBias s = 0 \<and> blueBias s = 0) \<and>
   (total20 s > 0 \<longrightarrow>
      redBias s = of_nat (last20 s R) / of_nat (total20 s) \<and>
      blueBias s = of_nat (last20 s B) / of_nat (total20 s) \<and>
      (redBias s \<ge> 6 / 10 \<longleftrightarrow> 3 * total20 s \<le> 5 * last20 s R) \<and>
      (blueBias s \<ge> 6 / 10 \<longleftrightarrow> 3 * total20 s \<le> 5 * last20 s B))"
proof (intro conjI impI)
  show "length (signals s) = 4"
    by (simp add: signals_def Let_def)
  show "map signal_id (signals s) = [''zebra'', ''streaklong'', ''bias'', ''ties'']"
    by (simp add: signals_def Let_def)
  show "map on (signals s) =
     [zebraMax s \<ge> 5, longest s R \<ge> 5 \<or> longest s B \<ge> 5,
      redBias s \<ge> 6 / 10 \<or> blueBias s \<ge> 6 / 10, last20 s T \<ge> 3]"
    by (simp add: signals_def Let_def)
  show "total20 s = last20 s R + last20 s B + last20 s T"
    by (simp add: total20_def)
  show "redBias s = 0" if "total20 s = 0"
    using that by (simp add: redBias_def)
  show "blueBias s = 0" if "total20 s = 0"
    using that by (simp add: blueBias_def)
  show "redBias s = of_nat (last20 s R) / of_nat (total20 s)" if "total20 s > 0"
    using that by (simp add: redBias_def)
  show "blueBias s = of_nat (last20 s B) / of_nat (total20 s)" if "total20 s > 0"
    using that by (simp add: blueBias_def)
  show "redBias s \<ge> 6 / 10 \<longleftrightarrow> 3 * total20 s \<le> 5 * last20 s R" if "total20 s > 0"
    using that bias_threshold [OF that, of "last20 s R"] by (simp add: redBias_def)
  show "blueBias s \<ge> 6 / 10 \<longleftrightarrow> 3 * total20 s \<le> 5 * last20 s B" if "total20 s > 0"
    using that bias_threshold [OF that, of "last20 s B"] by (simp add: blueBias_def)
qed

lemma last20_empty: "last20 (computeStats []) = (\<lambda>c. 0)"
  by (simp add: computeStats_sel lastN_def count_values_def)

lemma last20_red_history:
  shows "last20 (computeStats red_history) R = 3"
    and "last20 (computeStats red_history) B = 1"
    and "last20 (computeStats red_history) T = 1"
  by (simp_all add: computeStats_sel lastN_def count_values_def outcome_def red_history_def)

lemma last20_mixed_history:
  shows "last20 (computeStats mixed_history) R = 1"
    and "last20 (computeStats mixed_history) B = 2"
    and "last20 (computeStats mixed_history) T = 2"
  by (simp_all add: computeStats_sel lastN_def count_values_def outcome_def mixed_history_def)

lemma mixed_history_quiet:
  shows "zebraMax (computeStats mixed_history) = 1"
    and "longest (computeStats mixed_history) R = 1"
    and "longest (computeStats mixed_history) B = 2"
  by (simp_all add: computeStats_sel outcome_def mixed_history_def longest_scan_def flush_def)

theorem signals_four_witness:
  "total20 (computeStats []) = 0 \<and>
   redBias (computeStats []) = 0 \<and> blueBias (computeStats []) = 0 \<and>
   map on (signals (computeStats [])) = [False, False, False, False] \<and>
   total20 (computeStats red_history) = 5 \<and>
   redBias (computeStats red_history) \<ge> 6 / 10 \<and>
   total20 (computeStats mixed_history) = 5 \<and>
   map on (signals (computeStats mixed_history)) = [False, False, False, False]"
proof -
  have quiet: "zebraMax (computeStats []) = 0" "longest (computeStats []) = (\<lambda>c. 0)"
    by (simp_all add: computeStats_sel longest_scan_def flush_def)
  note empty = signals_four [of "computeStats []"]
  from empty [THEN conjunct2, THEN conjunct2, THEN conjunct2, THEN conjunct1]
  have zero: "total20 (computeStats []) = 0"
    by (simp add: last20_empty)
  from empty zero have none: "redBias (computeStats []) = 0" "blueBias (computeStats []) = 0"
    by blast+
  from empty [THEN conjunct2, THEN conjunct2, THEN conjunct1]
  have off: "map on (signals (computeStats [])) = [False, False, False, False]"
    by (simp add: none quiet last20_empty)
  note reds = signals_four [of "computeStats red_history"]
  from reds [THEN conjunct2, THEN conjunct2, THEN conjunct2, THEN conjunct1]
  have five: "total20 (computeStats red_history) = 5"
    by (simp add: last20_red_history)
  then have pos: "total20 (computeStats red_history) > 0"
    by simp
  from reds pos have "redBias (computeStats red_history) \<ge> 6 / 10 \<longleftrightarrow>
      3 * total20 (computeStats red_history) \<le> 5 * last20 (computeStats red_history) R"
    by blast
  then have biased: "redBias (computeStats red_history) \<ge> 6 / 10"
    by (simp add: five last20_red_history)
  note mixed = signals_four [of "computeStats mixed_history"]
  from mixed [THEN conjunct2, THEN conjunct2, THEN conjunct2, THEN conjunct1]
  have five': "total20 (computeStats mixed_history) = 5"
    by (simp add: last20_mixed_history)
  then have pos': "total20 (computeStats mixed_history) > 0"
    by simp
  from mixed pos' have
    "redBias (computeStats mixed_history) \<ge> 6 / 10 \<longleftrightarrow>
       3 * total20 (computeStats mixed_history) \<le> 5 * last20 (computeStats mixed_history) R"
    "blueBias (computeStats mixed_history) \<ge> 6 / 10 \<longleftrightarrow>
       3 * total20 (computeStats mixed_history) \<le> 5 * last20 (computeStats mixed_history) B"
    by blast+
  then have even: "\<not> redBias (computeStats mixed_history) \<ge> 6 / 10"
    "\<not> blueBias (computeStats mixed_history) \<ge> 6 / 10"
    by (simp_all add: five' last20_mixed_history)
  from mixed [THEN conjunct2, THEN conjunct2, THEN conjunct1]
  have off': "map on (signals (computeStats mixed_history)) = [False, False, False, False]"
    using even by (simp add: mixed_history_quiet last20_mixed_history)
  from zero none off five biased five' off' show ?thesis by blast
qed

section \<open>Properties of the import\<close>

lemma valid_record_iff: "valid_record r \<longleftrightarrow> tag_of (get_prop r ''v'') \<noteq> None"
  by (cases r) (simp_all add: valid_record_def tag_of_def)

lemma map_enumerate_snd: "map (\<lambda>p. f (snd p)) (enumerate n xs) = map f xs"
  by (induction xs arbitrary: n) simp_all

lemma valid_record_fun: "valid_record = (\<lambda>r. tag_of (get_prop r ''v'') \<noteq> None)"
  by (rule ext) (rule valid_record_iff)

lemma importJson_array:
  "history (importJson uid now (Some (JArr rs)) st) =
     map (\<lambda>(i, r). import_record uid now i r) (enumerate 0 (filter valid_record rs))"
  by (simp add: importJson_def)

lemma importJson_other_shape:
  assumes "\<not> is_record_array parsed" and "\<not> has_results_array parsed"
  shows "importJson uid now parsed st = st\<lparr> alerts := alerts st @ [Read_failure] \<rparr> \<or>
         importJson uid now parsed st = st\<lparr> alerts := alerts st @ [Invalid_JSON] \<rparr>"
proof (cases parsed)
  case None
  then show ?thesis by (simp add: importJson_def)
next
  case (Some p)
  with assms show ?thesis
    by (cases p)
       (auto simp: importJson_def is_record_array_def has_results_array_def
             split: option.splits json.splits)
qed

text \<open>
  Claim C8. A payload that is neither an array nor an object with an array \<^verbatim>\<open>results\<close>
  (this includes a text that is no JSON) leaves the history as it was and shows an
  alert. For an array, the new history has the values of the records whose \<^verbatim>\<open>v\<close> is one
  of the three tags, in their order, and every other element is dropped; a kept record
  without \<^verbatim>\<open>id\<close> gets the identifier that \<^verbatim>\<open>uid()\<close> returns, and a kept record without
  \<^verbatim>\<open>ts\<close> gets the time that \<^verbatim>\<open>Date.now()\<close> returns.
\<close>

theorem importJson_shapes:
  "(\<not> is_record_array parsed \<and> \<not> has_results_array parsed \<longrightarrow>
      history (importJson uid now parsed st) = history st \<and>
      (\<exists>a. alerts (importJson uid now parsed st) = alerts st @ [a])) \<and>
   map v (history (importJson uid now (Some (JArr rs)) st)) =
     map the (filter (\<lambda>t. t \<noteq> None) (map (\<lambda>r. tag_of (get_prop r ''v'')) rs)) \<and>
   (\<forall>i < length (filter valid_record rs).
      (get_prop (filter valid_record rs ! i) ''id'' = None \<longrightarrow>
         id' (history (importJson uid now (Some (JArr rs)) st) ! i) = JStr (uid i)) \<and>
      (get_prop (filter valid_record rs ! i) ''ts'' = None \<longrightarrow>
         ts (history (importJson uid now (Some (JArr rs)) st) ! i) = JNum (now i)))"
proof (intro conjI impI allI)
  assume shape: "\<not> is_record_array parsed \<and> \<not> has_results_array parsed"
  from shape importJson_other_shape [of parsed uid now st]
  show "history (importJson uid now parsed st) = history st" by auto
  from shape importJson_other_shape [of parsed uid now st]
  show "\<exists>a. alerts (importJson uid now parsed st) = alerts st @ [a]" by auto
next
  have "map v (history (importJson uid now (Some (JArr rs)) st)) =
          map (\<lambda>r. the (tag_of (get_prop r ''v''))) (filter valid_record rs)"
    by (simp add: importJson_array import_record_def case_prod_unfold comp_def
          map_enumerate_snd [of "\<lambda>r. the (tag_of (get_prop r ''v''))"])
  also have "\<dots> = map the (filter (\<lambda>t. t \<noteq> None) (map (\<lambda>r. tag_of (get_prop r ''v'')) rs))"
    by (simp add: filter_map comp_def valid_record_fun)
  finally show "map v (history (importJson uid now (Some (JArr rs)) st)) =
     map the (filter (\<lambda>t. t \<noteq> None) (map (\<lambda>r. tag_of (get_prop r ''v'')) rs))" .
next
  fix i
  assume "i < length (filter valid_record rs)"
    and "get_prop (filter valid_record rs ! i) ''id'' = None"
  then show "id' (history (importJson uid now (Some (JArr rs)) st) ! i) = JStr (uid i)"
    by (simp add: importJson_array nth_enumerate_eq import_record_def)
next
  fix i
  assume "i < length (filter valid_record rs)"
    and "get_prop (filter valid_record rs ! i) ''ts'' = None"
  then show "ts (history (importJson uid now (Some (JArr rs)) st) ! i) = JNum (now i)"
    by (simp add: importJson_array nth_enumerate_eq import_record_def)
qed

lemma sample_kept:
  "filter valid_record sample_records =
     [JObj [(''v'', JStr ''R'')],
      JObj [(''id'', JStr ''x2''), (''v'', JStr ''B''), (''ts'', JNum 7)]]"
  by (simp add: sample_records_def valid_record_def tag_of_def)

theorem importJson_shapes_witness:
  "\<not> is_record_array (Some (JObj [(''items'', JArr [])])) \<and>
   \<not> has_results_array (Some (JObj [(''items'', JArr [])])) \<and>
   history (importJson (\<lambda>i. ''fresh'') (\<lambda>i. 1700) (Some (JObj [(''items'', JArr [])])) sample_state)
     = history sample_state \<and>
   map v (history (importJson (\<lambda>i. ''fresh'') (\<lambda>i. 1700) (Some (JArr sample_records)) sample_state))
     = [R, B] \<and>
   id' (history (importJson (\<lambda>i. ''fresh'') (\<lambda>i. 1700) (Some (JArr sample_records)) sample_state) ! 0)
     = JStr ''fresh'' \<and>
   ts (history (importJson (\<lambda>i. ''fresh'') (\<lambda>i. 1700) (Some (JArr sample_records)) sample_state) ! 0)
     = JNum 1700"
proof -
  note shapes = importJson_shapes [where parsed = "Some (JObj [(''items'', JArr [])])"
      and uid = "\<lambda>i. ''fresh''" and now = "\<lambda>i. 1700" and st = sample_state
      and rs = sample_records]
  have other: "\<not> is_record_array (Some (JObj [(''items'', JArr [])])) \<and>
      \<not> has_results_array (Some (JObj [(''items'', JArr [])]))"
    by (simp add: is_record_array_def has_results_array_def)
  from shapes [THEN conjunct1] other
  have unchanged:
    "history (importJson (\<lambda>i. ''fresh'') (\<lambda>i. 1700) (Some (JObj [(''items'', JArr [])])) sample_state)
       = history sample_state"
    by blast
  from shapes [THEN conjunct2, THEN conjunct1]
  have vals:
    "map v (history (importJson (\<lambda>i. ''fresh'') (\<lambda>i. 1700) (Some (JArr sample_records)) sample_state))
       = [R, B]"
    by (simp add: sample_records_def tag_of_def)
  from shapes [THEN conjunct2, THEN conjunct2, THEN spec, of 0]
  have filled:
    "id' (history (importJson (\<lambda>i. ''fresh'') (\<lambda>i. 1700) (Some (JArr sample_records)) sample_state) ! 0)
       = JStr ''fresh'' \<and>
     ts (history (importJson (\<lambda>i. ''fresh'') (\<lambda>i. 1700) (Some (JArr sample_records)) sample_state) ! 0)
       = JNum 1700"
    by (simp add: sample_kept)
  from other unchanged vals filled show ?thesis by blast
qed

end
